theory Spec2Isabelle
  imports Main
begin

section \<open>Values exchanged with clients and downstream services\<close>

text \<open>
  Request and response bodies are JSON. An object keeps its members in source order;
  a repeated key is resolved as \<^verbatim>\<open>JSON.parse\<close> does, the last member winning.
  The numbers the gateway produces (counters, timestamps) are integers.
\<close>

datatype json =
    JNull
  | JBool bool
  | JNum int
  | JStr string
  | JArr "json list"
  | JObj "(string \<times> json) list"

text \<open>
  The errors the gateway can raise or receive. \<open>Error m\<close> is the plain
  \<^verbatim>\<open>new Error(m)\<close> of the gateway's own code, \<open>TypeError\<close> the property read on
  \<^verbatim>\<open>null\<close>, \<open>AmqpError\<close> a rejection or throw of the bus client library,
  \<open>AxiosError\<close> a rejected HTTP call, \<open>TimeoutError\<close> the breaker giving up on a call,
  \<open>BreakerShortCircuited\<close> a call refused by a breaker that has no fallback.
\<close>

datatype error =
    Error string
  | TypeError
  | AmqpError string
  | AxiosError string
  | TimeoutError
  | BreakerShortCircuited

text \<open>JavaScript truthiness of a JSON value.\<close>

fun truthy :: "json \<Rightarrow> bool" where
  "truthy JNull = False"
| "truthy (JBool b) = b"
| "truthy (JNum n) = (n \<noteq> 0)"
| "truthy (JStr s) = (s \<noteq> [])"
| "truthy (JArr xs) = True"
| "truthy (JObj kvs) = True"

text \<open>
  \<^verbatim>\<open>response.data.fallback\<close>, coerced by \<^verbatim>\<open>!\<close>: reading a property of
  \<^verbatim>\<open>null\<close> throws, a missing property and a property of a non-object are
  \<^verbatim>\<open>undefined\<close>, which is falsy.
\<close>

definition data_fallback :: "json \<Rightarrow> error + bool" where
  "data_fallback d =
     (case d of
        JNull \<Rightarrow> Inl TypeError
      | JObj kvs \<Rightarrow>
          Inr (case map_of (rev kvs) ''fallback'' of None \<Rightarrow> False | Some v \<Rightarrow> truthy v)
      | _ \<Rightarrow> Inr False)"

section \<open>The publisher: one pooled bus connection\<close>

text \<open>
  \<^verbatim>\<open>let rabbitChannel = null\<close> and the life cycle driven by
  \<^verbatim>\<open>connectToRabbitMQ\<close> (gateway/index.js, lines 35 to 56). Connections are numbered
  in the order \<^verbatim>\<open>amqp.connect\<close> resolves. The record keeps, beside the channel
  reference, what the asynchronous function has in flight:
  \<^item> \<open>connecting\<close>: calls of \<^verbatim>\<open>connectToRabbitMQ\<close> suspended at \<^verbatim>\<open>await amqp.connect\<close>;
  \<^item> \<open>awaitingChannel\<close>: calls suspended at \<^verbatim>\<open>await connection.createChannel()\<close>, by connection;
  \<^item> \<open>timers\<close>: pending \<^verbatim>\<open>setTimeout(connectToRabbitMQ, 5000)\<close>;
  \<^item> \<open>closeHandlers\<close>: connections carrying the \<^verbatim>\<open>'close'\<close> listener;
  \<^item> \<open>openConns\<close>: connections the process has opened and that have not closed.
\<close>

record publisher =
  rabbitChannel :: "nat option"
  openConns :: "nat list"
  closeHandlers :: "nat list"
  connecting :: nat
  awaitingChannel :: "nat list"
  timers :: nat
  nextConn :: nat

text \<open>Line 56: \<^verbatim>\<open>connectToRabbitMQ()\<close> is called once when the module loads.\<close>

definition startup :: publisher where
  "startup = \<lparr>rabbitChannel = None, openConns = [], closeHandlers = [],
     connecting = 1, awaitingChannel = [], timers = 0, nextConn = 0\<rparr>"

text \<open>
  What the event loop can deliver to the publisher: the two awaited promises settle
  either way, an open connection closes, a retry timer fires.
\<close>

datatype bus_event =
    ConnectResolves
  | ConnectRejects
  | CreateChannelResolves nat
  | CreateChannelRejects nat
  | ConnectionCloses nat
  | TimerFires

text \<open>
  One continuation of \<^verbatim>\<open>connectToRabbitMQ\<close> per event; \<open>None\<close> when the event
  cannot happen in the state. The \<^verbatim>\<open>catch\<close> block (lines 49 to 52) only logs and
  schedules the retry: it runs for a rejected \<^verbatim>\<open>amqp.connect\<close> and for a rejected
  \<^verbatim>\<open>createChannel\<close> alike, and closes nothing. The \<^verbatim>\<open>'close'\<close> listener
  (lines 44 to 48) clears the channel reference and schedules the retry; a connection
  that closes before the listener is attached only disappears.
\<close>

fun bus_step :: "bus_event \<Rightarrow> publisher \<Rightarrow> publisher option" where
  "bus_step ConnectResolves p =
     (if connecting p = 0 then None
      else Some (p\<lparr>connecting := connecting p - 1,
                   openConns := nextConn p # openConns p,
                   awaitingChannel := nextConn p # awaitingChannel p,
                   nextConn := Suc (nextConn p)\<rparr>))"
| "bus_step ConnectRejects p =
     (if connecting p = 0 then None
      else Some (p\<lparr>connecting := connecting p - 1, timers := Suc (timers p)\<rparr>))"
| "bus_step (CreateChannelResolves c) p =
     (if c \<in> set (awaitingChannel p) \<and> c \<in> set (openConns p)
      then Some (p\<lparr>awaitingChannel := remove1 c (awaitingChannel p),
                   rabbitChannel := Some c,
                   closeHandlers := c # closeHandlers p\<rparr>)
      else None)"
| "bus_step (CreateChannelRejects c) p =
     (if c \<in> set (awaitingChannel p)
      then Some (p\<lparr>awaitingChannel := remove1 c (awaitingChannel p), timers := Suc (timers p)\<rparr>)
      else None)"
| "bus_step (ConnectionCloses c) p =
     (if c \<in> set (openConns p)
      then (if c \<in> set (closeHandlers p)
            then Some (p\<lparr>openConns := removeAll c (openConns p),
                         closeHandlers := removeAll c (closeHandlers p),
                         rabbitChannel := None,
                         timers := Suc (timers p)\<rparr>)
            else Some (p\<lparr>openConns := removeAll c (openConns p)\<rparr>))
      else None)"
| "bus_step TimerFires p =
     (if timers p = 0 then None
      else Some (p\<lparr>timers := timers p - 1, connecting := Suc (connecting p)\<rparr>))"

fun bus_run :: "bus_event list \<Rightarrow> publisher \<Rightarrow> publisher option" where
  "bus_run [] p = Some p"
| "bus_run (e # es) p = (case bus_step e p of None \<Rightarrow> None | Some p' \<Rightarrow> bus_run es p')"

text \<open>
  What can still lead to a connection attempt or is one: the calls in flight, the
  pending timers, and the connections whose \<^verbatim>\<open>'close'\<close> listener would start one.
\<close>

definition pending :: "publisher \<Rightarrow> nat" where
  "pending p =
     connecting p + length (awaitingChannel p) + timers p + length (closeHandlers p)"

text \<open>
  The broker side of the channel: the queues declared so far and the messages handed to
  \<^verbatim>\<open>sendToQueue\<close>, oldest first.
\<close>

record bus =
  declared :: "string list"
  outbox :: "(string \<times> json) list"

text \<open>How the channel behaves during one publish; chosen by the environment.\<close>

datatype channel_behaviour =
    ChannelWorks
  | AssertQueueRejects string
  | SendToQueueThrows string

text \<open>
  \<^verbatim>\<open>publishToQueue(queue, message)\<close>, lines 58 to 67. The function is
  \<^verbatim>\<open>async\<close>: a throw is the rejection of the promise it returns. It reads
  \<open>rabbitChannel\<close> and writes nothing of the publisher.
\<close>

definition publishToQueue ::
  "publisher \<Rightarrow> channel_behaviour \<Rightarrow> string \<Rightarrow> json \<Rightarrow> bus \<Rightarrow> (error + unit) \<times> bus" where
  "publishToQueue p chan queue message b =
     (case rabbitChannel p of
        None \<Rightarrow> (Inl (Error ''RabbitMQ channel is not ready''), b)
      | Some ch \<Rightarrow>
          (case chan of
             AssertQueueRejects m \<Rightarrow> (Inl (AmqpError m), b)
           | SendToQueueThrows m \<Rightarrow>
               (Inl (AmqpError m), b\<lparr>declared := List.insert queue (declared b)\<rparr>)
           | ChannelWorks \<Rightarrow>
               (Inr (), b\<lparr>declared := List.insert queue (declared b),
                          outbox := outbox b @ [(queue, message)]\<rparr>)))"

text \<open>The spec's name for the error of line 60.\<close>

definition PublisherUnavailable :: error where
  "PublisherUnavailable = Error ''RabbitMQ channel is not ready''"

section \<open>The circuit breaker\<close>

text \<open>
  Modelled from the spec: the breaker is the \<^verbatim>\<open>opossum\<close> class the gateway
  instantiates at line 83; its code is not part of the sources, only its options
  (lines 72 to 76), its fallback (lines 85 to 92) and its call sites are. The state
  machine below follows section 4.2 of the specification: three states, a rolling
  outcome history bounded by count (\<open>True\<close> is a failure, newest first), the time the
  breaker opened, and the flag of the outstanding half-open trial.
\<close>

datatype breaker_mode = CLOSED | OPEN | HALF_OPEN

record BreakerState =
  state :: breaker_mode
  history :: "bool list"
  openedAt :: int
  trialInFlight :: bool

record breaker_options =
  timeout :: int
  errorThresholdPercentage :: nat
  resetTimeout :: int

text \<open>Lines 72 to 76.\<close>

definition circuitBreakerOptions :: breaker_options where
  "circuitBreakerOptions =
     \<lparr>timeout = 3000, errorThresholdPercentage = 50, resetTimeout = 10000\<rparr>"

definition initialBreaker :: BreakerState where
  "initialBreaker = \<lparr>state = CLOSED, history = [], openedAt = 0, trialInFlight = False\<rparr>"

text \<open>
  Modelled from the spec: the failure ratio over the rolling history has reached
  \<open>errorThresholdPercentage\<close> (the test the absent breaker makes after each outcome).
\<close>

definition ratio_reached :: "breaker_options \<Rightarrow> bool list \<Rightarrow> bool" where
  "ratio_reached opts h =
     (h \<noteq> [] \<and> errorThresholdPercentage opts * length h \<le> 100 * length (filter id h))"

datatype permit = Invoke | ShortCircuit

text \<open>
  Modelled from the spec: the decision the absent breaker takes when a call arrives at
  time \<open>t\<close>. An open breaker looks at the clock here and nowhere else: once
  \<open>resetTimeout\<close> has elapsed since \<open>openedAt\<close> the arriving call becomes the
  half-open trial.
\<close>

definition attempt :: "breaker_options \<Rightarrow> int \<Rightarrow> BreakerState \<Rightarrow> permit \<times> BreakerState" where
  "attempt opts t b =
     (case state b of
        CLOSED \<Rightarrow> (Invoke, b)
      | OPEN \<Rightarrow>
          (if resetTimeout opts \<le> t - openedAt b
           then (Invoke, b\<lparr>state := HALF_OPEN, trialInFlight := True\<rparr>)
           else (ShortCircuit, b))
      | HALF_OPEN \<Rightarrow>
          (if trialInFlight b then (ShortCircuit, b)
           else (Invoke, b\<lparr>trialInFlight := True\<rparr>)))"

text \<open>
  Modelled from the spec: how the absent breaker records the outcome of an attempted
  call at time \<open>t\<close>; \<open>hb\<close> bounds the history. A completion that reaches an open
  breaker belongs to a call started before it opened: it still enters the history.
\<close>

definition complete ::
  "breaker_options \<Rightarrow> nat \<Rightarrow> int \<Rightarrow> bool \<Rightarrow> BreakerState \<Rightarrow> BreakerState" where
  "complete opts hb t failed b =
     (let h = take hb (failed # history b) in
      case state b of
        CLOSED \<Rightarrow>
          (if ratio_reached opts h then b\<lparr>state := OPEN, history := h, openedAt := t\<rparr>
           else b\<lparr>history := h\<rparr>)
      | HALF_OPEN \<Rightarrow>
          (if failed
           then b\<lparr>state := OPEN, history := h, openedAt := t, trialInFlight := False\<rparr>
           else b\<lparr>state := CLOSED, history := [], trialInFlight := False\<rparr>)
      | OPEN \<Rightarrow> b\<lparr>history := h\<rparr>)"

text \<open>
  What the wrapped function does when it is called: it returns or throws after a
  duration in milliseconds.
\<close>

datatype 'a outcome = Returns 'a int | Throws error int

definition or_fallback :: "(unit \<Rightarrow> 'a) option \<Rightarrow> error \<Rightarrow> error + 'a" where
  "or_fallback fb e = (case fb of None \<Rightarrow> Inl e | Some f \<Rightarrow> Inr (f ()))"

text \<open>
  Modelled from the spec: \<open>execute\<close> of the absent breaker at time \<open>t\<close>: the
  result, whether the wrapped function was called, and the new breaker state. \<open>fn\<close>
  is what the function would do; a short-circuited call does not look at it.
\<close>

definition execute ::
  "breaker_options \<Rightarrow> nat \<Rightarrow> int \<Rightarrow> 'a outcome \<Rightarrow> (unit \<Rightarrow> 'a) option \<Rightarrow> BreakerState
     \<Rightarrow> (error + 'a) \<times> bool \<times> BreakerState" where
  "execute opts hb t fn fb b =
     (case attempt opts t b of
        (ShortCircuit, b') \<Rightarrow> (or_fallback fb BreakerShortCircuited, False, b')
      | (Invoke, b') \<Rightarrow>
          (case fn of
             Returns v d \<Rightarrow>
               (if timeout opts < d
                then (or_fallback fb TimeoutError, True,
                      complete opts hb (t + timeout opts) True b')
                else (Inr v, True, complete opts hb (t + d) False b'))
           | Throws e d \<Rightarrow>
               (if timeout opts < d
                then (or_fallback fb TimeoutError, True,
                      complete opts hb (t + timeout opts) True b')
                else (or_fallback fb e, True, complete opts hb (t + d) True b'))))"

text \<open>
  A call counts as failed when it throws or outlasts the timeout; the breaker records
  its outcome when the call ends or the timeout expires, whichever comes first.
\<close>

definition call_fails :: "breaker_options \<Rightarrow> 'a outcome \<Rightarrow> bool" where
  "call_fails opts fn = (case fn of Returns v d \<Rightarrow> timeout opts < d | Throws e d \<Rightarrow> True)"

definition elapsed :: "breaker_options \<Rightarrow> 'a outcome \<Rightarrow> int" where
  "elapsed opts fn =
     (case fn of Returns v d \<Rightarrow> min d (timeout opts) | Throws e d \<Rightarrow> min d (timeout opts))"

text \<open>
  Calls one after the other, each given by its time and by what the function would do.
  The result lists, per call, the result and whether the function was called.
\<close>

fun execute_all ::
  "breaker_options \<Rightarrow> nat \<Rightarrow> (int \<times> 'a outcome) list \<Rightarrow> (unit \<Rightarrow> 'a) option \<Rightarrow> BreakerState
     \<Rightarrow> ((error + 'a) \<times> bool) list \<times> BreakerState" where
  "execute_all opts hb [] fb b = ([], b)"
| "execute_all opts hb ((t, fn) # cs) fb b =
     (case execute opts hb t fn fb b of
        (r, called, b') \<Rightarrow>
          (case execute_all opts hb cs fb b' of (rs, b'') \<Rightarrow> ((r, called) # rs, b'')))"

section \<open>The rate limiter\<close>

text \<open>
  Modelled from the spec: the limiter is the \<^verbatim>\<open>express-rate-limit\<close> middleware
  built at lines 21 to 27; its code is not part of the sources, only its options are.
  It is the fixed-window counter of section 4.1, keyed by client: created on the first
  request of a key, reset when the window has elapsed, counting the admitted requests.
  The options carry a window and a limit and nothing else.
\<close>

record RateWindow =
  windowStart :: int
  count :: nat

datatype reject_reason = RATE_LIMITED | OVERLOADED

datatype admission = Allow | Reject reject_reason int

record limiter_options =
  windowMs :: int
  limit :: nat
  message :: json

text \<open>Lines 21 to 27.\<close>

definition limiter_options :: limiter_options where
  "limiter_options =
     \<lparr>windowMs = 1 * 60 * 1000, limit = 100,
      message = JObj [(''error'', JStr ''Too many requests, please try again later.'')]\<rparr>"

text \<open>
  Modelled from the spec: \<open>admit\<close> of the absent limiter for the client key \<open>k\<close> at
  time \<open>t\<close>; a rejection carries the time left in the window.
\<close>

definition admit ::
  "limiter_options \<Rightarrow> (string \<Rightarrow> RateWindow option) \<Rightarrow> int \<Rightarrow> string
     \<Rightarrow> admission \<times> (string \<Rightarrow> RateWindow option)" where
  "admit opts ws t k =
     (case ws k of
        None \<Rightarrow> (Allow, ws(k \<mapsto> \<lparr>windowStart = t, count = 1\<rparr>))
      | Some w \<Rightarrow>
          (if windowMs opts \<le> t - windowStart w
           then (Allow, ws(k \<mapsto> \<lparr>windowStart = t, count = 1\<rparr>))
           else if count w < limit opts
           then (Allow, ws(k \<mapsto> w\<lparr>count := Suc (count w)\<rparr>))
           else (Reject RATE_LIMITED (windowStart w + windowMs opts - t), ws)))"

section \<open>The gateway\<close>

text \<open>Lines 12 to 14, with the defaults taken when the environment sets nothing.\<close>

definition AUTH_SERVICE_URL :: string where
  "AUTH_SERVICE_URL = ''http://auth-service:3001''"

definition ORDER_SERVICE_URL :: string where
  "ORDER_SERVICE_URL = ''http://order-service:3002''"

definition USER_SERVICE_URL :: string where
  "USER_SERVICE_URL = ''http://user-service:3003''"

text \<open>
  The object \<^verbatim>\<open>breaker.fire\<close> resolves with: an HTTP client response, or the
  fallback object, which has a \<^verbatim>\<open>data\<close> member and no status.
\<close>

record axios_response =
  status :: "nat option"
  data :: json

text \<open>
  What the HTTP client has in hand when a call settles: the final response of the
  downstream service (after any redirect the client followed), with its status and
  with the body as the client parsed it, the value the handler reads as
  \<^verbatim>\<open>response.data\<close>; or no response. Either comes after a delay. The bytes on
  the wire and the client's parsing of them are outside the gateway's code and are not
  modelled.
\<close>

datatype http_reply = Reply nat json int | NoReply string int

text \<open>
  What one request meets outside the gateway: the clock on arrival (\<open>now\<close>) and when
  the event is stamped (\<open>stamp\<close>), the downstream services behind the HTTP client, the
  behaviour of the bus channel, the heap size reported by the runtime.
\<close>

record env =
  now :: int
  stamp :: int
  post :: "string \<Rightarrow> json \<Rightarrow> http_reply"
  get :: "string \<Rightarrow> http_reply"
  channel :: channel_behaviour
  heapUsed :: int

text \<open>
  The HTTP client resolves when the final response is of the 2xx class and rejects
  otherwise (its default status validation), as it rejects when no response arrives.
  The parsed body becomes \<^verbatim>\<open>response.data\<close>.
\<close>

definition axios_settle :: "http_reply \<Rightarrow> axios_response outcome" where
  "axios_settle r =
     (case r of
        Reply st body d \<Rightarrow>
          (if 200 \<le> st \<and> st < 300 then Returns \<lparr>status = Some st, data = body\<rparr> d
           else Throws (AxiosError ''Request failed'') d)
      | NoReply m d \<Rightarrow> Throws (AxiosError m) d)"

text \<open>\<^verbatim>\<open>protectedRequest(method, url, data = null)\<close>, lines 78 to 81.\<close>

definition protectedRequest :: "env \<Rightarrow> string \<Rightarrow> string \<Rightarrow> json \<Rightarrow> axios_response outcome" where
  "protectedRequest e method url d =
     (if method = ''post'' then axios_settle (post e url d) else axios_settle (get e url))"

text \<open>The function registered by \<^verbatim>\<open>breaker.fallback\<close>, lines 85 to 92.\<close>

definition fallback :: "unit \<Rightarrow> axios_response" where
  "fallback u =
     \<lparr>status = None,
      data = JObj [(''error'', JStr ''Service temporarily unavailable''),
                   (''fallback'', JBool True)]\<rparr>"

text \<open>
  \<^verbatim>\<open>breaker.fire(method, url, data)\<close> on the breaker of line 83: the one breaker
  wraps \<^verbatim>\<open>protectedRequest\<close> with the options of lines 72 to 76 and the fallback.
\<close>

definition fire ::
  "nat \<Rightarrow> env \<Rightarrow> string \<Rightarrow> string \<Rightarrow> json \<Rightarrow> BreakerState
     \<Rightarrow> (error + axios_response) \<times> bool \<times> BreakerState" where
  "fire hb e method url d b =
     execute circuitBreakerOptions hb (now e) (protectedRequest e method url d)
       (Some fallback) b"

text \<open>\<^verbatim>\<open>metrics\<close>, lines 95 to 100.\<close>

record gateway_metrics =
  totalRequests :: int
  activeConnections :: int
  failedRequests :: int
  startTime :: int

text \<open>
  The module's state: the limiter's windows, the publisher, the broker side of its
  channel, the one breaker, the counters.
\<close>

record gateway =
  windows :: "string \<Rightarrow> RateWindow option"
  rabbit :: publisher
  broker :: bus
  breaker :: BreakerState
  metrics :: gateway_metrics

datatype route =
    POST_api_auth_login
  | POST_api_orders
  | GET_api_users
  | GET_metrics
  | GET_health
  | Unrouted

text \<open>
  A request after \<^verbatim>\<open>express.json()\<close> has parsed its body; \<open>ip\<close> is the key the
  limiter counts by.
\<close>

record request =
  ip :: string
  route :: route
  body :: json

record reply =
  code :: nat
  payload :: json

text \<open>
  What handling one request leaves behind: the reply sent, the state after, the
  admission decision, the downstream calls made (method and URL), and the outcome of
  \<^verbatim>\<open>publishToQueue\<close> when the handler called it.
\<close>

record handled =
  sent :: reply
  after :: gateway
  admission :: admission
  invoked :: "(string \<times> string) list"
  published :: "(error + unit) option"

text \<open>\<^verbatim>\<open>res.json(v)\<close> with no status set replies 200.\<close>

definition res_json :: "json \<Rightarrow> reply" where
  "res_json v = \<lparr>code = 200, payload = v\<rparr>"

text \<open>The middleware of lines 102 to 110 and its \<^verbatim>\<open>'finish'\<close> listener.\<close>

definition metrics_middleware :: "gateway \<Rightarrow> gateway" where
  "metrics_middleware gw =
     gw\<lparr>metrics := (metrics gw)\<lparr>totalRequests := totalRequests (metrics gw) + 1,
                                 activeConnections := activeConnections (metrics gw) + 1\<rparr>\<rparr>"

definition on_finish :: "gateway \<Rightarrow> gateway" where
  "on_finish gw =
     gw\<lparr>metrics := (metrics gw)\<lparr>activeConnections := activeConnections (metrics gw) - 1\<rparr>\<rparr>"

text \<open>The \<^verbatim>\<open>catch\<close> block of the three proxied routes.\<close>

definition service_unavailable :: "gateway \<Rightarrow> (string \<times> string) list \<Rightarrow> handled" where
  "service_unavailable gw calls =
     \<lparr>sent = \<lparr>code = 503, payload = JObj [(''error'', JStr ''Service Unavailable'')]\<rparr>,
      after = gw\<lparr>metrics := (metrics gw)\<lparr>failedRequests := failedRequests (metrics gw) + 1\<rparr>\<rparr>,
      admission = Allow, invoked = calls, published = None\<rparr>"

text \<open>
  The body shared by the handlers of lines 113 to 154: fire the breaker, publish the
  event \<open>ev\<close> (queue and type; \<open>None\<close> on the route that publishes nothing) when the
  result is not a fallback and the channel reference is set, reply with the data. The
  call of \<^verbatim>\<open>publishToQueue\<close> is not awaited: its outcome reaches no statement of
  the handler.
\<close>

definition proxy ::
  "nat \<Rightarrow> env \<Rightarrow> string \<Rightarrow> string \<Rightarrow> json \<Rightarrow> (string \<times> string) option \<Rightarrow> gateway \<Rightarrow> handled" where
  "proxy hb e method url d ev gw =
     (case fire hb e method url d (breaker gw) of
        (r, called, b') \<Rightarrow>
          (let gw1 = gw\<lparr>breaker := b'\<rparr>;
               calls = (if called then [(method, url)] else [])
           in case r of
                Inl err \<Rightarrow> service_unavailable gw1 calls
              | Inr resp \<Rightarrow>
                  (case ev of
                     None \<Rightarrow>
                       \<lparr>sent = res_json (data resp), after = gw1, admission = Allow,
                        invoked = calls, published = None\<rparr>
                   | Some (queue, ty) \<Rightarrow>
                       (case data_fallback (data resp) of
                          Inl err \<Rightarrow> service_unavailable gw1 calls
                        | Inr fb \<Rightarrow>
                            (if \<not> fb \<and> rabbitChannel (rabbit gw1) \<noteq> None
                             then (case publishToQueue (rabbit gw1) (channel e) queue
                                          (JObj [(''type'', JStr ty),
                                                 (''timestamp'', JNum (stamp e))])
                                          (broker gw1) of
                                     (pr, bus') \<Rightarrow>
                                       \<lparr>sent = res_json (data resp),
                                        after = gw1\<lparr>broker := bus'\<rparr>,
                                        admission = Allow, invoked = calls,
                                        published = Some pr\<rparr>)
                             else \<lparr>sent = res_json (data resp), after = gw1,
                                   admission = Allow, invoked = calls,
                                   published = None\<rparr>)))))"

text \<open>Lines 113 to 129.\<close>

definition post_api_auth_login :: "nat \<Rightarrow> env \<Rightarrow> request \<Rightarrow> gateway \<Rightarrow> handled" where
  "post_api_auth_login hb e req gw =
     proxy hb e ''post'' (AUTH_SERVICE_URL @ ''/login'') (body req)
       (Some (''auth-events'', ''USER_LOGIN'')) gw"

text \<open>Lines 131 to 144.\<close>

definition post_api_orders :: "nat \<Rightarrow> env \<Rightarrow> request \<Rightarrow> gateway \<Rightarrow> handled" where
  "post_api_orders hb e req gw =
     proxy hb e ''post'' (ORDER_SERVICE_URL @ ''/orders'') (body req)
       (Some (''order-events'', ''ORDER_CREATED'')) gw"

text \<open>Lines 146 to 154.\<close>

definition get_api_users :: "nat \<Rightarrow> env \<Rightarrow> request \<Rightarrow> gateway \<Rightarrow> handled" where
  "get_api_users hb e req gw =
     proxy hb e ''get'' (USER_SERVICE_URL @ ''/users'') JNull None gw"

text \<open>
  Lines 157 to 169. \<^verbatim>\<open>Math.round\<close> of the heap size in MiB, \<^verbatim>\<open>Math.floor\<close>
  of the uptime in seconds; the connection count is the literal 1.
\<close>

definition get_metrics :: "env \<Rightarrow> gateway \<Rightarrow> handled" where
  "get_metrics e gw =
     \<lparr>sent = res_json (JObj
        [(''activeConnections'', JNum (activeConnections (metrics gw))),
         (''peakConnections'', JNum 100),
         (''memoryUsageMB'', JNum ((2 * heapUsed e + 1048576) div 2097152)),
         (''failedRequests'', JNum (failedRequests (metrics gw))),
         (''uptimeSeconds'', JNum ((now e - startTime (metrics gw)) div 1000)),
         (''rabbitConnections'', JNum 1),
         (''status'', JStr ''SECURE'')]),
      after = gw, admission = Allow, invoked = [], published = None\<rparr>"

text \<open>Lines 171 to 173.\<close>

definition get_health :: "gateway \<Rightarrow> handled" where
  "get_health gw =
     \<lparr>sent = res_json (JObj [(''status'', JStr ''ok''), (''protected'', JBool True)]),
      after = gw, admission = Allow, invoked = [], published = None\<rparr>"

text \<open>A path no route matches falls through to the framework's 404 page.\<close>

definition not_found :: "gateway \<Rightarrow> handled" where
  "not_found gw =
     \<lparr>sent = \<lparr>code = 404, payload = JNull\<rparr>,
      after = gw, admission = Allow, invoked = [], published = None\<rparr>"

text \<open>
  One request through the middleware stack in the order of registration: the limiter
  (line 30, on every path), the metrics middleware (line 102), the route. A request
  the limiter rejects is answered by the limiter with its \<open>message\<close> and goes no
  further.
\<close>

definition handle_request :: "nat \<Rightarrow> env \<Rightarrow> request \<Rightarrow> gateway \<Rightarrow> handled" where
  "handle_request hb e req gw =
     (case admit limiter_options (windows gw) (now e) (ip req) of
        (Reject reason retry, ws) \<Rightarrow>
          \<lparr>sent = \<lparr>code = 429, payload = message limiter_options\<rparr>,
           after = gw\<lparr>windows := ws\<rparr>,
           admission = Reject reason retry, invoked = [], published = None\<rparr>
      | (Allow, ws) \<Rightarrow>
          (let gw1 = metrics_middleware (gw\<lparr>windows := ws\<rparr>) in
           case route req of
             POST_api_auth_login \<Rightarrow> post_api_auth_login hb e req gw1
           | POST_api_orders \<Rightarrow> post_api_orders hb e req gw1
           | GET_api_users \<Rightarrow> get_api_users hb e req gw1
           | GET_metrics \<Rightarrow> get_metrics e gw1
           | GET_health \<Rightarrow> get_health gw1
           | Unrouted \<Rightarrow> not_found gw1))"

text \<open>The state when the module has loaded, at time \<open>t\<close>.\<close>

definition initialGateway :: "int \<Rightarrow> gateway" where
  "initialGateway t =
     \<lparr>windows = (\<lambda>k. None), rabbit = startup,
      broker = \<lparr>declared = [], outbox = []\<rparr>,
      breaker = initialBreaker,
      metrics = \<lparr>totalRequests = 0, activeConnections = 0, failedRequests = 0,
                 startTime = t\<rparr>\<rparr>"

text \<open>Requests handled one after the other, none of them finished.\<close>

fun handle_all :: "nat \<Rightarrow> (env \<times> request) list \<Rightarrow> gateway \<Rightarrow> handled list \<times> gateway" where
  "handle_all hb [] gw = ([], gw)"
| "handle_all hb ((e, req) # rs) gw =
     (let h = handle_request hb e req gw in
      case handle_all hb rs (after h) of (hs, gw') \<Rightarrow> (h # hs, gw'))"

section \<open>Example inputs\<close>

text \<open>
  A healthy environment at time \<open>t\<close>: the order service creates an order and answers
  201 (services/order-service/index.js, line 51), the user service answers 200.
\<close>

definition healthy :: "int \<Rightarrow> env" where
  "healthy t =
     \<lparr>now = t, stamp = t,
      post = (\<lambda>u d. Reply 201 (JObj [(''id'', JNum 1), (''status'', JStr ''pending'')]) 150),
      get = (\<lambda>u. Reply 200 (JArr []) 30),
      channel = ChannelWorks, heapUsed = 0\<rparr>"

text \<open>The same with the auth service refusing connections.\<close>

definition auth_down :: "int \<Rightarrow> env" where
  "auth_down t =
     (healthy t)\<lparr>post :=
        (\<lambda>u d. if u = AUTH_SERVICE_URL @ ''/login''
                then NoReply ''ECONNREFUSED'' 5
                else Reply 201 (JObj [(''id'', JNum 1), (''status'', JStr ''pending'')]) 150)\<rparr>"

definition request_from :: "string \<Rightarrow> route \<Rightarrow> request" where
  "request_from k r = \<lparr>ip = k, route = r, body = JNull\<rparr>"

text \<open>The publisher once the first connection and its channel are up.\<close>

definition connected :: publisher where
  "connected = \<lparr>rabbitChannel = Some 0, openConns = [0], closeHandlers = [0],
     connecting = 0, awaitingChannel = [], timers = 0, nextConn = 1\<rparr>"

definition running :: gateway where
  "running = (initialGateway 0)\<lparr>rabbit := connected\<rparr>"

text \<open>A gateway where the client 10.0.0.1 has used its hundred requests of the window.\<close>

definition spent :: gateway where
  "spent = running\<lparr>windows :=
     (\<lambda>k. if k = ''10.0.0.1'' then Some \<lparr>windowStart = 0, count = 100\<rparr> else None)\<rparr>"

text \<open>
  The running gateway after one login attempt at time 0 that found the auth service
  down: the failure is the whole history, the ratio is reached, the breaker is open.
\<close>

definition tripped :: gateway where
  "tripped = after (handle_request 10 (auth_down 0)
     (request_from ''10.0.0.1'' POST_api_auth_login) running)"

section \<open>Properties\<close>

lemmas unfold_gateway =
  handle_request_def admit_def limiter_options_def auth_down_def healthy_def request_from_def
  running_def initialGateway_def Let_def post_api_auth_login_def post_api_orders_def
  get_api_users_def proxy_def fire_def execute_def
  attempt_def complete_def initialBreaker_def protectedRequest_def axios_settle_def
  circuitBreakerOptions_def ratio_reached_def metrics_middleware_def res_json_def
  AUTH_SERVICE_URL_def ORDER_SERVICE_URL_def USER_SERVICE_URL_def or_fallback_def fallback_def
  data_fallback_def publishToQueue_def connected_def service_unavailable_def

subsection \<open>Auxiliary facts about the handlers\<close>

lemma connected_reachable:
  "bus_run [ConnectResolves, CreateChannelResolves 0] startup = Some connected"
  by (simp add: startup_def connected_def)

lemma proxy_admission: "admission (proxy hb e m u d ev gw) = Allow"
  by (auto simp: proxy_def service_unavailable_def Let_def
      split: prod.splits sum.splits option.splits)

lemma proxy_active:
  "activeConnections (metrics (after (proxy hb e m u d ev gw))) = activeConnections (metrics gw)"
  by (auto simp: proxy_def service_unavailable_def Let_def
      split: prod.splits sum.splits option.splits)

lemma proxy_published:
  "published (proxy hb e m u d ev gw) \<noteq> Some (Inl (Error ''RabbitMQ channel is not ready''))"
  by (auto simp: proxy_def service_unavailable_def publishToQueue_def Let_def
      split: prod.splits sum.splits option.splits channel_behaviour.splits)

lemma admit_never_overloaded: "fst (admit opts ws t k) \<noteq> Reject OVERLOADED r"
  by (auto simp: admit_def split: option.splits)

lemma handled_admission:
  "admit limiter_options (windows gw) (now e) (ip req) = (a, ws) \<Longrightarrow>
   admission (handle_request hb e req gw) = a"
  by (cases "route req"; cases a)
     (auto simp: handle_request_def Let_def post_api_auth_login_def post_api_orders_def
        get_api_users_def get_metrics_def get_health_def not_found_def proxy_admission)

lemma handled_active:
  "admit limiter_options (windows gw) (now e) (ip req) = (Allow, ws) \<Longrightarrow>
   activeConnections (metrics (after (handle_request hb e req gw))) =
     activeConnections (metrics gw) + 1"
  by (cases "route req")
     (auto simp: handle_request_def Let_def post_api_auth_login_def post_api_orders_def
        get_api_users_def get_metrics_def get_health_def not_found_def proxy_active
        metrics_middleware_def)

lemma finish_releases:
  "activeConnections (metrics (on_finish (metrics_middleware gw))) =
     activeConnections (metrics gw)"
  by (simp add: on_finish_def metrics_middleware_def)

lemma handle_allowed:
  "admit limiter_options (windows gw) (now e) (ip req) = (Allow, ws) \<Longrightarrow>
   handle_request hb e req gw =
     (case route req of
        POST_api_auth_login \<Rightarrow>
          post_api_auth_login hb e req (metrics_middleware (gw\<lparr>windows := ws\<rparr>))
      | POST_api_orders \<Rightarrow> post_api_orders hb e req (metrics_middleware (gw\<lparr>windows := ws\<rparr>))
      | GET_api_users \<Rightarrow> get_api_users hb e req (metrics_middleware (gw\<lparr>windows := ws\<rparr>))
      | GET_metrics \<Rightarrow> get_metrics e (metrics_middleware (gw\<lparr>windows := ws\<rparr>))
      | GET_health \<Rightarrow> get_health (metrics_middleware (gw\<lparr>windows := ws\<rparr>))
      | Unrouted \<Rightarrow> not_found (metrics_middleware (gw\<lparr>windows := ws\<rparr>)))"
  by (simp add: handle_request_def Let_def)

lemma admitted_admit:
  assumes "admission (handle_request hb e req gw) = Allow"
  shows "\<exists>ws. admit limiter_options (windows gw) (now e) (ip req) = (Allow, ws)"
proof -
  obtain a ws where aw: "admit limiter_options (windows gw) (now e) (ip req) = (a, ws)"
    by (cases "admit limiter_options (windows gw) (now e) (ip req)")
  with assms handled_admission [OF aw, of hb] show ?thesis by simp
qed

lemma middleware_breaker [simp]:
  "breaker (metrics_middleware (gw\<lparr>windows := ws\<rparr>)) = breaker gw"
  by (simp add: metrics_middleware_def)

lemma middleware_failed [simp]:
  "failedRequests (metrics (metrics_middleware (gw\<lparr>windows := ws\<rparr>))) =
     failedRequests (metrics gw)"
  by (simp add: metrics_middleware_def)

lemma tripped_breaker:
  "breaker tripped = \<lparr>state = OPEN, history = [True], openedAt = 5, trialInFlight = False\<rparr>"
  by (simp add: tripped_def unfold_gateway)

lemma fire_channel [simp]: "fire hb (e\<lparr>channel := c\<rparr>) m u d b = fire hb e m u d b"
  by (simp add: fire_def protectedRequest_def)

lemma fire_short:
  "fst (attempt circuitBreakerOptions (now e) b) = ShortCircuit \<Longrightarrow>
   fire hb e m u d b = (Inr (fallback ()), False, b)"
  by (auto simp: fire_def execute_def attempt_def or_fallback_def
      split: breaker_mode.splits if_splits)


lemma fallback_flag: "data_fallback (data (fallback ())) = Inr True"
  by (simp add: fallback_def data_fallback_def)

lemma proxy_short:
  "fst (attempt circuitBreakerOptions (now e) (breaker gw)) = ShortCircuit \<Longrightarrow>
   proxy hb e m u d ev gw =
     \<lparr>sent = res_json (data (fallback ())), after = gw, admission = Allow, invoked = [],
      published = None\<rparr>"
  by (cases ev) (auto simp: proxy_def fire_short fallback_flag)


lemma data_fallback_False:
  "(data_fallback d = Inr False) =
   (d \<noteq> JNull \<and>
    (\<forall>kvs v. d = JObj kvs \<and> map_of (rev kvs) ''fallback'' = Some v \<longrightarrow> \<not> truthy v))"
  by (cases d) (auto simp: data_fallback_def split: option.splits)

lemma null_data_reaches_catch:
  assumes "fire hb e m u d (breaker gw) = (Inr resp, called, b')" "data resp = JNull"
  shows "sent (proxy hb e m u d (Some ev) gw) =
           \<lparr>code = 503, payload = JObj [(''error'', JStr ''Service Unavailable'')]\<rparr>
       \<and> failedRequests (metrics (after (proxy hb e m u d (Some ev) gw)))
           = failedRequests (metrics gw) + 1"
  using assms
  by (cases ev) (simp add: proxy_def data_fallback_def service_unavailable_def Let_def)

lemma proxy_success:
  assumes f: "fire hb e m u d (breaker gw) = (Inr resp, True, b')"
    and nf: "data_fallback (data resp) = Inr False"
  shows "sent (proxy hb (e\<lparr>channel := c\<rparr>) m u d ev gw) = \<lparr>code = 200, payload = data resp\<rparr>
       \<and> failedRequests (metrics (after (proxy hb (e\<lparr>channel := c\<rparr>) m u d ev gw)))
           = failedRequests (metrics gw)"
  using f nf
  by (auto simp: proxy_def res_json_def Let_def split: option.splits prod.splits)

subsection \<open>Admission\<close>

text \<open>
  C4, as stated, fails: the claim has a request rejected as \<open>OVERLOADED\<close> when the
  requests admitted and not completed have reached a global maximum. Three requests
  from three clients, none of them finished: the third arrives with two in flight, is
  admitted, and the count is three. No maximum of two (or less) is enforced.
\<close>

theorem inflight_unbounded_counterexample:
  "map admission (fst (handle_all 10
       [(healthy 0, request_from ''10.0.0.1'' GET_api_users),
        (healthy 1, request_from ''10.0.0.2'' GET_api_users),
        (healthy 2, request_from ''10.0.0.3'' GET_api_users)] running)) = [Allow, Allow, Allow]
   \<and> activeConnections (metrics (snd (handle_all 10
       [(healthy 0, request_from ''10.0.0.1'' GET_api_users),
        (healthy 1, request_from ''10.0.0.2'' GET_api_users),
        (healthy 2, request_from ''10.0.0.3'' GET_api_users)] running))) = 3"
  by (simp add: handle_request_def admit_def limiter_options_def healthy_def request_from_def
      running_def initialGateway_def Let_def get_api_users_def proxy_def fire_def execute_def
      attempt_def complete_def initialBreaker_def protectedRequest_def axios_settle_def
      circuitBreakerOptions_def ratio_reached_def metrics_middleware_def res_json_def
      USER_SERVICE_URL_def)

text \<open>
  C4, amended: the gateway enforces no bound on the requests in flight. Admission
  never signals \<open>OVERLOADED\<close>; every admitted request adds one to
  \<open>activeConnections\<close> whatever its value; and the first request of a client is
  admitted whatever the number in flight.
\<close>

theorem admission_only_rate_limits:
  "admission (handle_request hb e req gw) \<noteq> Reject OVERLOADED retry
   \<and> (admission (handle_request hb e req gw) = Allow \<longrightarrow>
        activeConnections (metrics (after (handle_request hb e req gw))) =
          activeConnections (metrics gw) + 1)
   \<and> (windows gw (ip req) = None \<longrightarrow> admission (handle_request hb e req gw) = Allow)"
proof -
  obtain a ws where aw: "admit limiter_options (windows gw) (now e) (ip req) = (a, ws)"
    by (cases "admit limiter_options (windows gw) (now e) (ip req)")
  have adm: "admission (handle_request hb e req gw) = a"
    using aw by (rule handled_admission)
  have "a \<noteq> Reject OVERLOADED retry"
    using admit_never_overloaded [of limiter_options "windows gw" "now e" "ip req" retry] aw
    by simp
  moreover have "a = Allow \<longrightarrow>
      activeConnections (metrics (after (handle_request hb e req gw))) =
        activeConnections (metrics gw) + 1"
    using aw handled_active by blast
  moreover have "windows gw (ip req) = None \<longrightarrow> a = Allow"
    using aw by (auto simp: admit_def)
  ultimately show ?thesis using adm by simp
qed

theorem admission_only_rate_limits_witness:
  "windows running (ip (request_from ''10.0.0.7'' POST_api_orders)) = None
   \<and> admission (handle_request 10 (healthy 0) (request_from ''10.0.0.7'' POST_api_orders)
        running) = Allow
   \<and> activeConnections (metrics (after (handle_request 10 (healthy 0)
        (request_from ''10.0.0.7'' POST_api_orders) running))) = 1"
proof -
  have w: "windows running (ip (request_from ''10.0.0.7'' POST_api_orders)) = None"
    by (simp add: running_def initialGateway_def)
  have z: "activeConnections (metrics running) = 0"
    by (simp add: running_def initialGateway_def)
  show ?thesis
    using admission_only_rate_limits
      [of 10 "healthy 0" "request_from ''10.0.0.7'' POST_api_orders" running 0] w z
    by simp
qed

text \<open>
  C5: a request that admission rejects is answered at once with status 429 and the
  body \<open>{error: "Too many requests, please try again later."}\<close>, and no downstream
  call is made for it; neither the breaker nor the counters see it.
\<close>

theorem rejected_request_gets_429:
  assumes "admission (handle_request hb e req gw) = Reject reason retry"
  shows "sent (handle_request hb e req gw) =
           \<lparr>code = 429,
            payload = JObj [(''error'', JStr ''Too many requests, please try again later.'')]\<rparr>
         \<and> invoked (handle_request hb e req gw) = []
         \<and> published (handle_request hb e req gw) = None
         \<and> breaker (after (handle_request hb e req gw)) = breaker gw
         \<and> metrics (after (handle_request hb e req gw)) = metrics gw"
proof (cases "admit limiter_options (windows gw) (now e) (ip req)")
  case (Pair a ws)
  show ?thesis
  proof (cases a)
    case Allow
    with Pair assms handled_admission show ?thesis by fastforce
  next
    case (Reject r t)
    with Pair show ?thesis
      by (simp add: handle_request_def limiter_options_def)
  qed
qed

theorem rejected_request_gets_429_witness:
  "admission (handle_request 10 (healthy 1000) (request_from ''10.0.0.1'' POST_api_orders)
      spent) = Reject RATE_LIMITED 59000
   \<and> code (sent (handle_request 10 (healthy 1000) (request_from ''10.0.0.1'' POST_api_orders)
      spent)) = 429
   \<and> invoked (handle_request 10 (healthy 1000) (request_from ''10.0.0.1'' POST_api_orders)
      spent) = []"
proof -
  have h: "admission (handle_request 10 (healthy 1000)
      (request_from ''10.0.0.1'' POST_api_orders) spent) = Reject RATE_LIMITED 59000"
    by (simp add: handle_request_def admit_def limiter_options_def healthy_def
        request_from_def spent_def)
  show ?thesis
    using h rejected_request_gets_429 [OF h] by simp
qed

text \<open>
  C9, as stated, fails: the claim has every \<open>GET /health\<close> bypass admission. The
  limiter is registered for every path before the routes; a client that has used its
  window is answered 429 on \<open>/health\<close> too.
\<close>

theorem health_rate_limited_counterexample:
  "sent (handle_request 10 (healthy 1000) (request_from ''10.0.0.1'' GET_health) spent) =
     \<lparr>code = 429,
      payload = JObj [(''error'', JStr ''Too many requests, please try again later.'')]\<rparr>"
  by (simp add: handle_request_def admit_def limiter_options_def healthy_def request_from_def
      spent_def)

text \<open>
  C9, amended: a \<open>GET /health\<close> request bypasses the circuit breaker, in every state:
  it leaves the breaker as it was and calls no downstream service. It passes through
  the rate limiter as every request does: when the limiter admits it, the reply is the
  liveness response \<open>{status: "ok", protected: true}\<close>; otherwise the reply is 429.
\<close>

theorem health_skips_breaker_not_limiter:
  assumes "route req = GET_health"
  shows "breaker (after (handle_request hb e req gw)) = breaker gw
       \<and> invoked (handle_request hb e req gw) = []
       \<and> (admission (handle_request hb e req gw) = Allow \<longrightarrow>
            sent (handle_request hb e req gw) =
              \<lparr>code = 200, payload = JObj [(''status'', JStr ''ok''), (''protected'', JBool True)]\<rparr>)
       \<and> (admission (handle_request hb e req gw) \<noteq> Allow \<longrightarrow>
            code (sent (handle_request hb e req gw)) = 429)"
  using assms
  by (auto simp: handle_request_def Let_def get_health_def res_json_def metrics_middleware_def
      split: prod.splits admission.splits)

theorem health_skips_breaker_not_limiter_witness:
  "route (request_from ''10.0.0.9'' GET_health) = GET_health
   \<and> admission (handle_request 10 (healthy 5) (request_from ''10.0.0.9'' GET_health) spent)
       = Allow
   \<and> sent (handle_request 10 (healthy 5) (request_from ''10.0.0.9'' GET_health) spent) =
       \<lparr>code = 200, payload = JObj [(''status'', JStr ''ok''), (''protected'', JBool True)]\<rparr>
   \<and> breaker (after (handle_request 10 (healthy 5) (request_from ''10.0.0.9'' GET_health)
       spent)) = breaker spent"
proof -
  have h: "route (request_from ''10.0.0.9'' GET_health) = GET_health"
    by (simp add: request_from_def)
  have a: "admission (handle_request 10 (healthy 5) (request_from ''10.0.0.9'' GET_health)
      spent) = Allow"
    by (simp add: handle_request_def admit_def limiter_options_def healthy_def
        request_from_def spent_def get_health_def Let_def)
  show ?thesis
    using h a health_skips_breaker_not_limiter [OF h, of 10 "healthy 5" spent] by simp
qed

subsection \<open>Publishing\<close>

text \<open>
  C7: a publish invoked while the channel reference is unset fails at once with the
  not-ready error (the spec's \<open>PublisherUnavailable\<close>) and buffers nothing: the
  broker side is as it was, nothing is stored for later, and the publisher's connection
  state is only read.
\<close>

theorem publish_not_ready_fails_fast:
  assumes "rabbitChannel p = None"
  shows "publishToQueue p chan queue msg b = (Inl PublisherUnavailable, b)"
  using assms by (simp add: publishToQueue_def PublisherUnavailable_def)

theorem publish_not_ready_fails_fast_witness:
  "rabbitChannel startup = None
   \<and> publishToQueue startup ChannelWorks ''auth-events'' (JObj [(''type'', JStr ''USER_LOGIN'')])
       \<lparr>declared = [], outbox = []\<rparr>
     = (Inl (Error ''RabbitMQ channel is not ready''), \<lparr>declared = [], outbox = []\<rparr>)"
proof -
  have h: "rabbitChannel startup = None" by (simp add: startup_def)
  show ?thesis
    using h publish_not_ready_fails_fast [OF h] by (simp add: PublisherUnavailable_def)
qed

text \<open>
  C10: on every route the publish is called only when the channel reference is set,
  so the not-ready error of \<open>publishToQueue\<close> is raised for no client request,
  whatever the state, the request and the environment.
\<close>

theorem route_publish_never_not_ready:
  "published (handle_request hb e req gw) \<noteq> Some (Inl (Error ''RabbitMQ channel is not ready''))"
  by (cases "route req")
     (auto simp: handle_request_def Let_def post_api_auth_login_def post_api_orders_def
        get_api_users_def get_metrics_def get_health_def not_found_def proxy_published
        split: prod.splits admission.splits)

text \<open>
  C6, as stated, fails: the claim has the status delivered to the client be that of
  the downstream result. The order service answers a created order with 201; the
  gateway passes the body on with \<^verbatim>\<open>res.json\<close> and its own status 200.
\<close>

theorem order_status_counterexample:
  "fst (fire 10 (healthy 0) ''post'' (ORDER_SERVICE_URL @ ''/orders'') JNull (breaker running))
     = Inr \<lparr>status = Some 201,
            data = JObj [(''id'', JNum 1), (''status'', JStr ''pending'')]\<rparr>
   \<and> sent (handle_request 10 (healthy 0) (request_from ''10.0.0.1'' POST_api_orders) running)
     = \<lparr>code = 200, payload = JObj [(''id'', JNum 1), (''status'', JStr ''pending'')]\<rparr>
   \<and> published (handle_request 10 (healthy 0) (request_from ''10.0.0.1'' POST_api_orders)
        running) = Some (Inr ())"
  by (simp add: unfold_gateway)

text \<open>
  C6, amended: take an admitted request on a publishing route whose downstream call
  was made and resolved with a response \<open>resp\<close> on which the handler's test
  \<^verbatim>\<open>!response.data.fallback\<close> evaluates to true, that is, whose
  \<^verbatim>\<open>response.data\<close> (the body as the HTTP client parsed it) is not null and has
  no truthy \<open>fallback\<close> member (hypothesis \<open>nf\<close>). Then the reply is status 200,
  whatever the downstream status was, with \<^verbatim>\<open>response.data\<close> as its body, and
  the failure counter is untouched, whatever the bus channel does during the publish:
  the reply is the same for every behaviour \<open>c\<close> of the channel. A response whose
  data is null is outside this statement (\<open>null_data_reaches_catch\<close> shows what the
  handler does with it).
\<close>

theorem publish_outcome_leaves_reply:
  assumes r: "(route req = POST_api_auth_login \<and> url = AUTH_SERVICE_URL @ ''/login'')
              \<or> (route req = POST_api_orders \<and> url = ORDER_SERVICE_URL @ ''/orders'')"
    and adm: "admission (handle_request hb e req gw) = Allow"
    and f: "fire hb e ''post'' url (body req) (breaker gw) = (Inr resp, True, b')"
    and nf: "data_fallback (data resp) = Inr False"
  shows "sent (handle_request hb (e\<lparr>channel := c\<rparr>) req gw) = \<lparr>code = 200, payload = data resp\<rparr>
       \<and> failedRequests (metrics (after (handle_request hb (e\<lparr>channel := c\<rparr>) req gw)))
           = failedRequests (metrics gw)"
proof -
  from admitted_admit [OF adm] obtain ws
    where aw: "admit limiter_options (windows gw) (now e) (ip req) = (Allow, ws)" by blast
  then have aw':
    "admit limiter_options (windows gw) (now (e\<lparr>channel := c\<rparr>)) (ip req) = (Allow, ws)"
    by simp
  have f': "fire hb e ''post'' url (body req)
      (breaker (metrics_middleware (gw\<lparr>windows := ws\<rparr>))) = (Inr resp, True, b')"
    using f by simp
  show ?thesis
    using r proxy_success [OF f' nf, of c]
    by (auto simp: handle_allowed [OF aw'] post_api_auth_login_def post_api_orders_def)
qed

theorem publish_outcome_leaves_reply_witness:
  "sent (handle_request 10 ((healthy 0)\<lparr>channel := AssertQueueRejects ''channel closed''\<rparr>)
      (request_from ''10.0.0.4'' POST_api_orders) running)
     = \<lparr>code = 200, payload = JObj [(''id'', JNum 1), (''status'', JStr ''pending'')]\<rparr>
   \<and> published (handle_request 10 ((healthy 0)\<lparr>channel := AssertQueueRejects ''channel closed''\<rparr>)
      (request_from ''10.0.0.4'' POST_api_orders) running)
     = Some (Inl (AmqpError ''channel closed''))"
proof -
  have r: "(route (request_from ''10.0.0.4'' POST_api_orders) = POST_api_auth_login
             \<and> ORDER_SERVICE_URL @ ''/orders'' = AUTH_SERVICE_URL @ ''/login'')
           \<or> (route (request_from ''10.0.0.4'' POST_api_orders) = POST_api_orders
             \<and> ORDER_SERVICE_URL @ ''/orders'' = ORDER_SERVICE_URL @ ''/orders'')"
    by (simp add: request_from_def)
  have adm: "admission (handle_request 10 (healthy 0)
      (request_from ''10.0.0.4'' POST_api_orders) running) = Allow"
    by (simp add: unfold_gateway)
  have f: "fire 10 (healthy 0) ''post'' (ORDER_SERVICE_URL @ ''/orders'')
      (body (request_from ''10.0.0.4'' POST_api_orders)) (breaker running)
      = (Inr \<lparr>status = Some 201,
              data = JObj [(''id'', JNum 1), (''status'', JStr ''pending'')]\<rparr>, True,
         \<lparr>state = CLOSED, history = [False], openedAt = 0, trialInFlight = False\<rparr>)"
    by (simp add: unfold_gateway)
  have nf: "data_fallback (data \<lparr>status = Some 201,
      data = JObj [(''id'', JNum 1), (''status'', JStr ''pending'')]\<rparr>) = Inr False"
    by (simp add: data_fallback_def)
  have p: "published (handle_request 10
      ((healthy 0)\<lparr>channel := AssertQueueRejects ''channel closed''\<rparr>)
      (request_from ''10.0.0.4'' POST_api_orders) running)
     = Some (Inl (AmqpError ''channel closed''))"
    by (simp add: unfold_gateway)
  show ?thesis
    using publish_outcome_leaves_reply [OF r adm f nf, of "AssertQueueRejects ''channel closed''"] p
    by simp
qed

subsection \<open>The breaker in the routes\<close>

text \<open>
  C2, as stated, fails: the claim has a short-circuited request answered with status
  503 and the body \<open>{error: "Service Unavailable"}\<close>. With the breaker open, a login
  is answered with status 200 and the fallback's data.
\<close>

theorem short_circuit_reply_counterexample:
  "sent (handle_request 10 (healthy 100) (request_from ''10.0.0.1'' POST_api_auth_login) tripped)
     = \<lparr>code = 200,
        payload = JObj [(''error'', JStr ''Service temporarily unavailable''),
                        (''fallback'', JBool True)]\<rparr>
   \<and> invoked (handle_request 10 (healthy 100) (request_from ''10.0.0.1'' POST_api_auth_login)
        tripped) = []"
  by (simp add: tripped_def unfold_gateway)

text \<open>
  C2, amended: for every admitted request on a proxied route whose breaker call is
  short-circuited, the gateway replies with status 200 and the fallback's data,
  \<open>{error: "Service temporarily unavailable", fallback: true}\<close>; no downstream call
  and no publish happen, and neither the breaker nor the failure counter changes.
\<close>

theorem short_circuit_reply:
  assumes r: "route req = POST_api_auth_login \<or> route req = POST_api_orders
              \<or> route req = GET_api_users"
    and adm: "admission (handle_request hb e req gw) = Allow"
    and sc: "fst (attempt circuitBreakerOptions (now e) (breaker gw)) = ShortCircuit"
  shows "sent (handle_request hb e req gw) =
           \<lparr>code = 200,
            payload = JObj [(''error'', JStr ''Service temporarily unavailable''),
                            (''fallback'', JBool True)]\<rparr>
       \<and> invoked (handle_request hb e req gw) = []
       \<and> published (handle_request hb e req gw) = None
       \<and> breaker (after (handle_request hb e req gw)) = breaker gw
       \<and> failedRequests (metrics (after (handle_request hb e req gw)))
           = failedRequests (metrics gw)"
proof -
  from admitted_admit [OF adm] obtain ws
    where aw: "admit limiter_options (windows gw) (now e) (ip req) = (Allow, ws)" by blast
  have sc': "fst (attempt circuitBreakerOptions (now e)
      (breaker (metrics_middleware (gw\<lparr>windows := ws\<rparr>)))) = ShortCircuit"
    using sc by simp
  show ?thesis
    using r
    by (auto simp: handle_allowed [OF aw] post_api_auth_login_def post_api_orders_def
        get_api_users_def proxy_short [OF sc'] res_json_def fallback_def)
qed

theorem short_circuit_reply_witness:
  "fst (attempt circuitBreakerOptions (now (healthy 200)) (breaker tripped)) = ShortCircuit
   \<and> admission (handle_request 10 (healthy 200) (request_from ''10.0.0.3'' GET_api_users)
        tripped) = Allow
   \<and> code (sent (handle_request 10 (healthy 200) (request_from ''10.0.0.3'' GET_api_users)
        tripped)) = 200
   \<and> invoked (handle_request 10 (healthy 200) (request_from ''10.0.0.3'' GET_api_users)
        tripped) = []"
proof -
  have r: "route (request_from ''10.0.0.3'' GET_api_users) = POST_api_auth_login
           \<or> route (request_from ''10.0.0.3'' GET_api_users) = POST_api_orders
           \<or> route (request_from ''10.0.0.3'' GET_api_users) = GET_api_users"
    by (simp add: request_from_def)
  have adm: "admission (handle_request 10 (healthy 200)
      (request_from ''10.0.0.3'' GET_api_users) tripped) = Allow"
    by (simp add: tripped_def unfold_gateway)
  have sc: "fst (attempt circuitBreakerOptions (now (healthy 200)) (breaker tripped))
      = ShortCircuit"
    by (simp add: tripped_breaker attempt_def circuitBreakerOptions_def healthy_def)
  show ?thesis
    using adm sc short_circuit_reply [OF r adm sc] by simp
qed



subsection \<open>The breaker's state machine\<close>

lemma execute_open_within:
  "state b = OPEN \<Longrightarrow> t - openedAt b < resetTimeout opts \<Longrightarrow>
   execute opts hb t fn (Some f) b = (Inr (f ()), False, b)"
  by (simp add: execute_def attempt_def or_fallback_def)

lemma execute_all_open_within:
  "state b = OPEN \<Longrightarrow> \<forall>c \<in> set calls. fst c - openedAt b < resetTimeout opts \<Longrightarrow>
   execute_all opts hb calls (Some f) b = (replicate (length calls) (Inr (f ()), False), b)"
proof (induction calls)
  case Nil
  show ?case by simp
next
  case (Cons c cs)
  obtain t fn where c: "c = (t, fn)" by (cases c)
  with Cons.prems have "t - openedAt b < resetTimeout opts" by simp
  with Cons.prems(1) have "execute opts hb t fn (Some f) b = (Inr (f ()), False, b)"
    by (rule execute_open_within)
  moreover from Cons have
    "execute_all opts hb cs (Some f) b = (replicate (length cs) (Inr (f ()), False), b)"
    by simp
  ultimately show ?case using c by simp
qed

lemma execute_closed_failure:
  assumes "state b = CLOSED" "call_fails opts fn" "ratio_reached opts (take hb (True # history b))"
  shows "execute opts hb t fn (Some f) b =
     (Inr (f ()), True, b\<lparr>state := OPEN, history := take hb (True # history b),
        openedAt := t + elapsed opts fn\<rparr>)"
  using assms
  by (cases fn)
     (auto simp: execute_def attempt_def complete_def call_fails_def elapsed_def or_fallback_def
        Let_def min_def)

text \<open>
  C3: a closed breaker that records a failed call with the rolling failure ratio at
  the threshold opens, at the time the failure is recorded. Every later call within
  \<open>resetTimeout\<close> of that time returns the fallback without calling the function, and
  leaves the breaker exactly as it was: nothing but a call moves it. The first call
  attempt at or after \<open>resetTimeout\<close> finds it still open and is itself let through as
  the half-open trial.
\<close>

theorem breaker_opens_then_short_circuits:
  assumes closed: "state b = CLOSED"
    and fails: "call_fails opts fn"
    and reached: "ratio_reached opts (take hb (True # history b))"
    and within: "\<forall>c \<in> set calls. fst c - (t + elapsed opts fn) < resetTimeout opts"
    and late: "resetTimeout opts \<le> t' - (t + elapsed opts fn)"
  shows "case execute opts hb t fn (Some f) b of
           (r, called, b1) \<Rightarrow>
             r = Inr (f ()) \<and> called \<and> state b1 = OPEN \<and> openedAt b1 = t + elapsed opts fn
             \<and> execute_all opts hb calls (Some f) b1 =
                 (replicate (length calls) (Inr (f ()), False), b1)
             \<and> attempt opts t' b1 = (Invoke, b1\<lparr>state := HALF_OPEN, trialInFlight := True\<rparr>)"
proof -
  let ?b1 = "b\<lparr>state := OPEN, history := take hb (True # history b),
        openedAt := t + elapsed opts fn\<rparr>"
  have ex: "execute opts hb t fn (Some f) b = (Inr (f ()), True, ?b1)"
    using closed fails reached by (rule execute_closed_failure)
  have op: "state ?b1 = OPEN" by simp
  have w: "\<forall>c \<in> set calls. fst c - openedAt ?b1 < resetTimeout opts"
    using within by simp
  have all: "execute_all opts hb calls (Some f) ?b1 =
      (replicate (length calls) (Inr (f ()), False), ?b1)"
    using op w by (rule execute_all_open_within)
  have at: "attempt opts t' ?b1 = (Invoke, ?b1\<lparr>state := HALF_OPEN, trialInFlight := True\<rparr>)"
    using late by (simp add: attempt_def)
  show ?thesis using ex all at by simp
qed

theorem breaker_opens_then_short_circuits_witness:
  "call_fails circuitBreakerOptions (Returns \<lparr>status = Some 200, data = JNull\<rparr> 5000)
   \<and> ratio_reached circuitBreakerOptions (take 10 (True # history initialBreaker))
   \<and> execute circuitBreakerOptions 10 0 (Returns \<lparr>status = Some 200, data = JNull\<rparr> 5000)
        (Some fallback) initialBreaker
      = (Inr (fallback ()), True,
         \<lparr>state = OPEN, history = [True], openedAt = 3000, trialInFlight = False\<rparr>)
   \<and> execute_all circuitBreakerOptions 10
        [(3100, Returns \<lparr>status = Some 200, data = JNull\<rparr> 5000),
         (12999, Returns \<lparr>status = Some 200, data = JNull\<rparr> 5000)]
        (Some fallback)
        \<lparr>state = OPEN, history = [True], openedAt = 3000, trialInFlight = False\<rparr>
      = ([(Inr (fallback ()), False), (Inr (fallback ()), False)],
         \<lparr>state = OPEN, history = [True], openedAt = 3000, trialInFlight = False\<rparr>)
   \<and> attempt circuitBreakerOptions 13000
        \<lparr>state = OPEN, history = [True], openedAt = 3000, trialInFlight = False\<rparr>
      = (Invoke,
         \<lparr>state = HALF_OPEN, history = [True], openedAt = 3000, trialInFlight = True\<rparr>)"
proof -
  let ?fn = "Returns \<lparr>status = Some 200, data = JNull\<rparr> 5000"
  let ?calls = "[(3100, ?fn), (12999, ?fn)]"
  have closed: "state initialBreaker = CLOSED"
    by (simp add: initialBreaker_def)
  have fails: "call_fails circuitBreakerOptions ?fn"
    by (simp add: call_fails_def circuitBreakerOptions_def)
  have reached: "ratio_reached circuitBreakerOptions (take 10 (True # history initialBreaker))"
    by (simp add: ratio_reached_def circuitBreakerOptions_def initialBreaker_def)
  have el: "elapsed circuitBreakerOptions ?fn = 3000"
    by (simp add: elapsed_def circuitBreakerOptions_def)
  have within: "\<forall>c \<in> set ?calls.
      fst c - (0 + elapsed circuitBreakerOptions ?fn) < resetTimeout circuitBreakerOptions"
    by (simp add: el) (simp add: circuitBreakerOptions_def)
  have late: "resetTimeout circuitBreakerOptions
      \<le> 13000 - (0 + elapsed circuitBreakerOptions ?fn)"
    by (simp add: el) (simp add: circuitBreakerOptions_def)
  have ex: "execute circuitBreakerOptions 10 0 ?fn (Some fallback) initialBreaker
      = (Inr (fallback ()), True,
         \<lparr>state = OPEN, history = [True], openedAt = 3000, trialInFlight = False\<rparr>)"
    by (simp add: execute_def attempt_def complete_def or_fallback_def ratio_reached_def
        circuitBreakerOptions_def initialBreaker_def)
  show ?thesis
    using breaker_opens_then_short_circuits
      [OF closed fails reached within late, where f = fallback] ex fails reached
    by simp
qed

subsection \<open>The connection life cycle\<close>

lemma bus_step_pending:
  assumes "bus_step ev p = Some p'" "pending p = 1"
  shows "pending p' = 1"
proof (cases ev)
  case (CreateChannelResolves c)
  with assms(1) have c: "c \<in> set (awaitingChannel p)"
    and p': "p' = p\<lparr>awaitingChannel := remove1 c (awaitingChannel p),
                   rabbitChannel := Some c, closeHandlers := c # closeHandlers p\<rparr>"
    by (auto split: if_splits)
  from c have "0 < length (awaitingChannel p)" by (rule length_pos_if_in_set)
  with assms(2) have "length (awaitingChannel p) = 1" "connecting p = 0" "timers p = 0"
      "length (closeHandlers p) = 0"
    unfolding pending_def by linarith+
  with c p' show ?thesis
    by (simp add: pending_def length_remove1)
next
  case (CreateChannelRejects c)
  with assms(1) have c: "c \<in> set (awaitingChannel p)"
    and p': "p' = p\<lparr>awaitingChannel := remove1 c (awaitingChannel p),
                   timers := Suc (timers p)\<rparr>"
    by (auto split: if_splits)
  from c have "0 < length (awaitingChannel p)" by (rule length_pos_if_in_set)
  with assms(2) have "length (awaitingChannel p) = 1" "connecting p = 0" "timers p = 0"
      "length (closeHandlers p) = 0"
    unfolding pending_def by linarith+
  with c p' show ?thesis
    by (simp add: pending_def length_remove1)
next
  case (ConnectionCloses c)
  show ?thesis
  proof (cases "c \<in> set (closeHandlers p)")
    case True
    then have "0 < length (closeHandlers p)" by (rule length_pos_if_in_set)
    with assms(2) have one: "length (closeHandlers p) = 1"
      and rest: "connecting p = 0" "length (awaitingChannel p) = 0" "timers p = 0"
      unfolding pending_def by linarith+
    from one True have "closeHandlers p = [c]"
      by (cases "closeHandlers p") auto
    with assms(1) ConnectionCloses rest show ?thesis
      by (auto simp: pending_def split: if_splits)
  next
    case False
    with assms(1) ConnectionCloses have "pending p' = pending p"
      by (auto simp: pending_def split: if_splits)
    with assms(2) show ?thesis by simp
  qed
next
  case ConnectResolves
  with assms(1) have "pending p' = pending p"
    by (auto simp: pending_def split: if_splits)
  with assms(2) show ?thesis by simp
next
  case ConnectRejects
  with assms(1) have "pending p' = pending p"
    by (auto simp: pending_def split: if_splits)
  with assms(2) show ?thesis by simp
next
  case TimerFires
  with assms(1) have "pending p' = pending p"
    by (auto simp: pending_def split: if_splits)
  with assms(2) show ?thesis by simp
qed

lemma bus_run_pending:
  "bus_run evs p = Some p' \<Longrightarrow> pending p = 1 \<Longrightarrow> pending p' = 1"
proof (induction evs arbitrary: p)
  case Nil
  then show ?case by simp
next
  case (Cons ev evs)
  then show ?case
    by (auto split: option.splits dest: bus_step_pending)
qed

lemma one_attempt_at_a_time:
  assumes "bus_run evs startup = Some p"
  shows "connecting p + length (awaitingChannel p) \<le> 1"
proof -
  have "pending startup = 1" by (simp add: pending_def startup_def)
  with assms have "pending p = 1" by (rule bus_run_pending)
  then show ?thesis by (simp add: pending_def)
qed

lemma proxy_rabbit: "rabbit (after (proxy hb e m u d ev gw)) = rabbit gw"
  by (auto simp: proxy_def service_unavailable_def Let_def
      split: prod.splits sum.splits option.splits)

lemma requests_leave_publisher: "rabbit (after (handle_request hb e req gw)) = rabbit gw"
  by (cases "route req")
     (auto simp: handle_request_def Let_def post_api_auth_login_def post_api_orders_def
        get_api_users_def get_metrics_def get_health_def not_found_def proxy_rabbit
        metrics_middleware_def split: prod.splits admission.splits)

text \<open>
  C1 asks for at most one live bus connection at every instant. Requests open none
  (\<open>requests_leave_publisher\<close>) and at most one attempt is in flight
  (\<open>one_attempt_at_a_time\<close>), but one path of \<^verbatim>\<open>connectToRabbitMQ\<close> breaks the
  bound: when \<^verbatim>\<open>amqp.connect\<close> resolves and \<^verbatim>\<open>createChannel\<close> then rejects,
  the \<^verbatim>\<open>catch\<close> block schedules the retry and leaves the connection open. After
  the retry, connections 0 and 1 are both open, the channel being on connection 1.
\<close>

theorem rejected_channel_leaks_connection:
  "map_option openConns
     (bus_run [ConnectResolves, CreateChannelRejects 0, TimerFires, ConnectResolves,
               CreateChannelResolves 1] startup) = Some [1, 0]
   \<and> map_option rabbitChannel
     (bus_run [ConnectResolves, CreateChannelRejects 0, TimerFires, ConnectResolves,
               CreateChannelResolves 1] startup) = Some (Some 1)"
  by (simp add: startup_def)

end
